theory Spec2Isabelle
  imports Complex_Main
begin

section \<open>Conventions of the embedding\<close>

text \<open>
  JavaScript numbers are embedded as exact reals: the rounding, overflow and underflow
  of IEEE doubles are not represented, so a definition below agrees with the source
  where the source's arithmetic is exact, as it is on integers and on binary fractions
  of moderate size. Every concrete evaluation of the loaded grid below is at such
  inputs. Where the source can leave the finite numbers on inputs of the right type (a
  read beyond an array, a read from \<^verbatim>\<open>undefined\<close>, a division by zero), the
  embedding says so with an explicit outcome instead of a number. Objects with methods
  (safe sets, obstacles, trackers) are records of functions; the methods of such an
  object return finite numbers.
\<close>

datatype error = TypeError

section \<open>Obstacles and the obstaclescape (src/unnamed/part\_000)\<close>

text \<open>
  An obstacle as the obstaclescape sees it: an object with the three query methods
  \<^verbatim>\<open>value(setID,states)\<close>, \<^verbatim>\<open>gradV(setID,states)\<close> and
  \<^verbatim>\<open>collisionSetValue(states)\<close>. The gradient is an array the obstaclescape only
  passes on, so its type is left open.
\<close>

record 'g Obstacle =
  ob_value :: "nat \<Rightarrow> real list \<Rightarrow> real"
  ob_gradV :: "nat \<Rightarrow> real list \<Rightarrow> 'g"
  ob_collisionSetValue :: "real list \<Rightarrow> real"

record 'g Obstaclescape =
  obstacles :: "'g Obstacle list"
  obstacleDestroyed :: "bool list"
  obstacleUndetected :: "bool list"

text \<open>
  The constructor: every obstacle starts neither destroyed nor undetected.
\<close>

definition Obstaclescape_new :: "'g Obstacle list \<Rightarrow> 'g Obstaclescape" where
  "Obstaclescape_new obs =
     \<lparr> obstacles = obs,
       obstacleDestroyed = map (\<lambda>obNum. False) [0..<length obs],
       obstacleUndetected = map (\<lambda>obNum. False) [0..<length obs] \<rparr>"

text \<open>
  \<^verbatim>\<open>flags[obNum] == b\<close> for a boolean literal \<open>b\<close>. A read beyond the array is
  \<^verbatim>\<open>undefined\<close>, and \<^verbatim>\<open>undefined == false\<close> and \<^verbatim>\<open>undefined == true\<close> are both false.
\<close>

definition flag_is :: "bool list \<Rightarrow> nat \<Rightarrow> bool \<Rightarrow> bool" where
  "flag_is flags obNum b = (obNum < length flags \<and> flags ! obNum = b)"

text \<open>The filter of \<^verbatim>\<open>value\<close> and \<^verbatim>\<open>gradV\<close>: not destroyed and not undetected.\<close>

definition unionEligible :: "'g Obstaclescape \<Rightarrow> nat \<Rightarrow> bool" where
  "unionEligible sc obNum =
     (flag_is (obstacleDestroyed sc) obNum False \<and> flag_is (obstacleUndetected sc) obNum False)"

text \<open>The filter of \<^verbatim>\<open>collisionSetValue\<close>: not destroyed and undetected.\<close>

definition collisionEligible :: "'g Obstaclescape \<Rightarrow> nat \<Rightarrow> bool" where
  "collisionEligible sc obNum =
     (flag_is (obstacleDestroyed sc) obNum False \<and> flag_is (obstacleUndetected sc) obNum True)"

text \<open>
  \<^verbatim>\<open>Obstaclescape.value\<close>: the running minimum starts at 100 and the loop visits
  \<open>obNum = 0, 1, ..., obstacles.length - 1\<close>.
\<close>

definition Obstaclescape_value :: "'g Obstaclescape \<Rightarrow> nat \<Rightarrow> real list \<Rightarrow> real" where
  "Obstaclescape_value sc setID sts =
     foldl (\<lambda>curMinValue obNum.
              if unionEligible sc obNum
              then (let obsValue = ob_value (obstacles sc ! obNum) setID sts
                    in if obsValue < curMinValue then obsValue else curMinValue)
              else curMinValue)
           100 [0..<length (obstacles sc)]"

text \<open>
  \<^verbatim>\<open>Obstaclescape.collisionSetValue\<close>: the loop state is the pair
  \<open>(curMinValue, curMinOb)\<close>, started at \<open>(100, 0)\<close>; the pair is what is returned.
\<close>

definition Obstaclescape_collisionSetValue :: "'g Obstaclescape \<Rightarrow> real list \<Rightarrow> real \<times> nat" where
  "Obstaclescape_collisionSetValue sc sts =
     foldl (\<lambda>(curMinValue, curMinOb) obNum.
              if collisionEligible sc obNum
              then (let obsValue = ob_collisionSetValue (obstacles sc ! obNum) sts
                    in if obsValue < curMinValue then (obsValue, obNum)
                       else (curMinValue, curMinOb))
              else (curMinValue, curMinOb))
           (100, 0) [0..<length (obstacles sc)]"

text \<open>
  The scan of \<^verbatim>\<open>Obstaclescape.gradV\<close>: the loop state is
  \<open>(curMinValue, dominantObstacle)\<close>, started at \<open>(100, 0)\<close>.
\<close>

definition dominantScan :: "'g Obstaclescape \<Rightarrow> nat \<Rightarrow> real list \<Rightarrow> real \<times> nat" where
  "dominantScan sc setID sts =
     foldl (\<lambda>(curMinValue, dominantObstacle) obNum.
              if unionEligible sc obNum
              then (let obsValue = ob_value (obstacles sc ! obNum) setID sts
                    in if obsValue < curMinValue then (obsValue, obNum)
                       else (curMinValue, dominantObstacle))
              else (curMinValue, dominantObstacle))
           (100, 0) [0..<length (obstacles sc)]"

text \<open>
  \<^verbatim>\<open>Obstaclescape.gradV\<close> returns \<^verbatim>\<open>this.obstacles[dominantObstacle].gradV(setID,states)\<close>.
  With no obstacle at that index the read is \<^verbatim>\<open>undefined\<close> and the method call
  throws a TypeError.
\<close>

definition Obstaclescape_gradV :: "'g Obstaclescape \<Rightarrow> nat \<Rightarrow> real list \<Rightarrow> error + 'g" where
  "Obstaclescape_gradV sc setID sts =
     (let dominantObstacle = snd (dominantScan sc setID sts)
      in if dominantObstacle < length (obstacles sc)
         then Inr (ob_gradV (obstacles sc ! dominantObstacle) setID sts)
         else Inl TypeError)"

section \<open>Safe sets (src/sourceJS/reachable\_sets.js)\<close>

text \<open>
  A safe set is an object with the methods \<^verbatim>\<open>value(states)\<close> and
  \<^verbatim>\<open>gradV(states)\<close>. The type of the gradient is left open: the composing classes
  only pass it on.
\<close>

record 'g SafeSet =
  ss_value :: "real list \<Rightarrow> real"
  ss_gradV :: "real list \<Rightarrow> 'g"

text \<open>
  \<^verbatim>\<open>UnionedSafeSet\<close>: both methods evaluate \<^verbatim>\<open>setA.value\<close> and
  \<^verbatim>\<open>setB.value\<close> afresh and branch on \<^verbatim>\<open>valueA < valueB\<close>.
\<close>

definition UnionedSafeSet_value :: "'g SafeSet \<Rightarrow> 'g SafeSet \<Rightarrow> real list \<Rightarrow> real" where
  "UnionedSafeSet_value setA setB sts =
     (let valueA = ss_value setA sts;
          valueB = ss_value setB sts
      in if valueA < valueB then valueA else valueB)"

definition UnionedSafeSet_gradV :: "'g SafeSet \<Rightarrow> 'g SafeSet \<Rightarrow> real list \<Rightarrow> 'g" where
  "UnionedSafeSet_gradV setA setB sts =
     (let valueA = ss_value setA sts;
          valueB = ss_value setB sts
      in if valueA < valueB then ss_gradV setA sts else ss_gradV setB sts)"

definition UnionedSafeSet :: "'g SafeSet \<Rightarrow> 'g SafeSet \<Rightarrow> 'g SafeSet" where
  "UnionedSafeSet setA setB =
     \<lparr> ss_value = UnionedSafeSet_value setA setB, ss_gradV = UnionedSafeSet_gradV setA setB \<rparr>"

subsection \<open>The safe set loaded from a grid (\<^verbatim>\<open>loaded_SafeSet\<close>)\<close>

text \<open>
  The grid data is a nest of arrays of numbers. \<open>Undefined\<close> is what a read beyond an
  array (or a read of an index from a number) gives.
\<close>

datatype jsval = Num real | Arr "jsval list" | Undefined

text \<open>The parsed JSON object \<^verbatim>\<open>this.reachset\<close>.\<close>

record reachset =
  gmin :: "real list"
  gdx :: "real list"
  gN :: "int list"
  gperiodicity :: "bool list"
  data :: "jsval list"

text \<open>
  The quotient \<^verbatim>\<open>(states[xDim]-gmin[xDim])/gdx[xDim]\<close> is a finite number on every
  axis of the state exactly when \<^verbatim>\<open>gmin\<close> and \<^verbatim>\<open>gdx\<close> have an entry there and the
  spacing is not zero. Otherwise it is NaN or infinite, and so is the index taken from it.
  The quotient here is the exact one. In doubles the subtraction and the division round,
  so with a spacing such as 0.1 the source may find a state beside a grid line that lies
  on it, and the other way round.
\<close>

definition gridCovers :: "reachset \<Rightarrow> real list \<Rightarrow> bool" where
  "gridCovers g sts =
     list_all (\<lambda>xDim. xDim < length (gmin g) \<and> xDim < length (gdx g) \<and> gdx g ! xDim \<noteq> 0)
              [0..<length sts]"

definition gridQuotient :: "reachset \<Rightarrow> real list \<Rightarrow> nat \<Rightarrow> real" where
  "gridQuotient g sts xDim = (sts ! xDim - gmin g ! xDim) / gdx g ! xDim"

text \<open>
  \<^verbatim>\<open>gN[xDim]\<close> may be \<^verbatim>\<open>undefined\<close> (\<open>None\<close>); an \<^verbatim>\<open>undefined\<close>
  \<^verbatim>\<open>gperiodicity[xDim]\<close> is falsy.
\<close>

definition gN_at :: "reachset \<Rightarrow> nat \<Rightarrow> int option" where
  "gN_at g xDim = (if xDim < length (gN g) then Some (gN g ! xDim) else None)"

definition periodic_at :: "reachset \<Rightarrow> nat \<Rightarrow> bool" where
  "periodic_at g xDim = (xDim < length (gperiodicity g) \<and> gperiodicity g ! xDim)"

text \<open>
  The periodic correction: two \<^verbatim>\<open>if\<close> statements in sequence, each adding or
  subtracting \<open>gN\<close> once. With \<open>gN\<close> undefined every comparison against it is false
  and the addition gives NaN (\<open>None\<close>).
\<close>

definition wrapIndex :: "int option \<Rightarrow> int \<Rightarrow> int option" where
  "wrapIndex N i =
     (case N of
        None \<Rightarrow> (if i < 0 then None else Some i)
      | Some n \<Rightarrow>
          (let i1 = (if i < 0 then i + n else i);
               i2 = (if i1 \<ge> n then i1 - n else i1)
           in Some i2))"

text \<open>The correction of a non-periodic axis: project into \<open>0 .. gN - 1\<close>.\<close>

definition clampIndex :: "int option \<Rightarrow> int \<Rightarrow> int option" where
  "clampIndex N i =
     (case N of
        None \<Rightarrow> Some (if i < 0 then 0 else i)
      | Some n \<Rightarrow>
          (let i1 = (if i < 0 then 0 else i);
               i2 = (if i1 \<ge> n then n - 1 else i1)
           in Some i2))"

text \<open>
  The source has this correction twice, with the same text: in \<^verbatim>\<open>nearIndices\<close> under
  \<^verbatim>\<open>gridwrap\<close>, once for the low and once for the high index, and in \<^verbatim>\<open>value\<close>.
\<close>

definition fixIndex :: "reachset \<Rightarrow> nat \<Rightarrow> int \<Rightarrow> int option" where
  "fixIndex g xDim i =
     (if periodic_at g xDim then wrapIndex (gN_at g xDim) i else clampIndex (gN_at g xDim) i)"

text \<open>
  \<^verbatim>\<open>nearIndices(_states,gridwrap)\<close>: the floor and the ceiling of the quotient on each
  axis, corrected into the grid under \<^verbatim>\<open>gridwrap\<close>. The result is \<open>None\<close> when the
  quotient of some axis is not a finite number (the embedding does not follow NaN or
  infinite indices any further) or a correction gives NaN.
\<close>

definition nearIndices :: "reachset \<Rightarrow> real list \<Rightarrow> bool \<Rightarrow> (int list \<times> int list) option" where
  "nearIndices g sts gridwrap =
     (if \<not> gridCovers g sts then None
      else
        let lowEdgeIndex = map (\<lambda>xDim. if gridwrap then fixIndex g xDim \<lfloor>gridQuotient g sts xDim\<rfloor>
                                         else Some \<lfloor>gridQuotient g sts xDim\<rfloor>) [0..<length sts];
            highEdgeIndex = map (\<lambda>xDim. if gridwrap then fixIndex g xDim \<lceil>gridQuotient g sts xDim\<rceil>
                                          else Some \<lceil>gridQuotient g sts xDim\<rceil>) [0..<length sts]
        in if list_all (\<lambda>i. i \<noteq> None) (lowEdgeIndex @ highEdgeIndex)
           then Some (map the lowEdgeIndex, map the highEdgeIndex)
           else None)"

text \<open>
  \<^verbatim>\<open>v[i]\<close>: an element of an array, \<^verbatim>\<open>undefined\<close> beyond it, at a NaN index or on
  a number; on \<^verbatim>\<open>undefined\<close> the read throws a TypeError (\<open>None\<close>).
\<close>

fun js_index :: "jsval \<Rightarrow> int option \<Rightarrow> jsval option" where
  "js_index (Arr vs) (Some i) = Some (if 0 \<le> i \<and> nat i < length vs then vs ! nat i else Undefined)"
| "js_index (Arr vs) None = Some Undefined"
| "js_index (Num x) i = Some Undefined"
| "js_index Undefined i = None"

text \<open>Peeling the nested array layer by layer, one index per axis.\<close>

fun peel :: "jsval \<Rightarrow> int option list \<Rightarrow> jsval option" where
  "peel v [] = Some v"
| "peel v (i # is) = (case js_index v i of None \<Rightarrow> None | Some w \<Rightarrow> peel w is)"

text \<open>
  The number that \<^verbatim>\<open>volume * cornerValue\<close> reads from \<^verbatim>\<open>cornerValue\<close>:
  \<^verbatim>\<open>undefined\<close> is NaN (\<open>None\<close>); an array is converted through its string, so the
  empty array is 0, a one-element array is its element, and a longer array is NaN.
\<close>

fun toNumber :: "jsval \<Rightarrow> real option" where
  "toNumber (Num x) = Some x"
| "toNumber Undefined = None"
| "toNumber (Arr []) = Some 0"
| "toNumber (Arr [v]) = (case v of Undefined \<Rightarrow> Some 0 | _ \<Rightarrow> toNumber v)"
| "toNumber (Arr (v # w # vs)) = None"

text \<open>\<^verbatim>\<open>griddedValue(index)\<close>: the stored datum at an index vector.\<close>

definition griddedValue :: "reachset \<Rightarrow> int list \<Rightarrow> jsval option" where
  "griddedValue g index = peel (Arr (data g)) (map Some index)"

text \<open>
  \<^verbatim>\<open>corner & Math.pow(2,xDim)\<close>: the bitwise operators work on 32 bits, so the mask
  is zero from \<open>xDim = 32\<close> on.
\<close>

definition cornerBit :: "nat \<Rightarrow> nat \<Rightarrow> bool" where
  "cornerBit corner xDim = (xDim < 32 \<and> odd (corner div 2 ^ xDim))"

text \<open>
  One pass of the corner loop: the volume of the opposite sub-cell and the value stored
  at the corner. \<open>None\<close> when the read throws or the product is NaN.
\<close>

definition cornerTerm ::
  "reachset \<Rightarrow> real list \<Rightarrow> real list \<Rightarrow> int option list \<Rightarrow> int option list \<Rightarrow> nat \<Rightarrow> nat \<Rightarrow> real option" where
  "cornerTerm g distanceToLower distanceToHigher lowEdgeIndex highEdgeIndex D corner =
     (let volume = foldl (\<lambda>volume xDim. volume * (if cornerBit corner xDim then distanceToLower ! xDim
                                                      else distanceToHigher ! xDim)) 1 [0..<D];
          cornerIndex = map (\<lambda>xDim. if cornerBit corner xDim then highEdgeIndex ! xDim
                                      else lowEdgeIndex ! xDim) [0..<D]
      in case peel (Arr (data g)) cornerIndex of
           None \<Rightarrow> None
         | Some cornerValue \<Rightarrow>
             (case toNumber cornerValue of None \<Rightarrow> None | Some c \<Rightarrow> Some (volume * c)))"

text \<open>
  The last two blocks of \<^verbatim>\<open>loaded_SafeSet.value\<close>: the loop over the \<open>2 ^ D\<close> corners
  of the cell, which adds up \<^verbatim>\<open>volume * cornerValue\<close>, and the division by the total
  volume, the product of the spacings.
\<close>

definition interpolate ::
  "reachset \<Rightarrow> nat \<Rightarrow> real list \<Rightarrow> real list \<Rightarrow> int option list \<Rightarrow> int option list \<Rightarrow> real option" where
  "interpolate g D distanceToLower distanceToHigher lowEdgeIndex highEdgeIndex =
     (let weighted = foldl (\<lambda>value corner.
              case value of
                None \<Rightarrow> None
              | Some v \<Rightarrow>
                  (case cornerTerm g distanceToLower distanceToHigher lowEdgeIndex highEdgeIndex D corner of
                     None \<Rightarrow> None
                   | Some t \<Rightarrow> Some (v + t)))
            (Some 0) [0..<2 ^ D];
          total_volume = foldl (\<lambda>total_volume xDim. total_volume * gdx g ! xDim) 1 [0..<D]
      in case weighted of None \<Rightarrow> None | Some v \<Rightarrow> Some (v / total_volume))"

text \<open>
  \<^verbatim>\<open>loaded_SafeSet.value(states)\<close>: the distances to the two enclosing grid planes on
  each axis, taken from the uncorrected indices, with the override \<open>(1, 0)\<close> where the
  two indices agree; then the correction of the indices; then the interpolation.
  \<open>None\<close> stands for every outcome that is not a finite number: a TypeError, NaN or an
  infinity. Once the running sum is NaN it stays NaN; with a zero spacing the final
  division is by a zero total volume.
\<close>

definition loaded_SafeSet_value :: "reachset \<Rightarrow> real list \<Rightarrow> real option" where
  "loaded_SafeSet_value g sts =
     (case nearIndices g sts False of
        None \<Rightarrow> None
      | Some (lowEdgeIndex0, highEdgeIndex0) \<Rightarrow>
          (let D = length sts;
               distanceToLower = map (\<lambda>xDim.
                   if lowEdgeIndex0 ! xDim = highEdgeIndex0 ! xDim then 1
                   else sts ! xDim - (of_int (lowEdgeIndex0 ! xDim) * gdx g ! xDim + gmin g ! xDim)) [0..<D];
               distanceToHigher = map (\<lambda>xDim.
                   if lowEdgeIndex0 ! xDim = highEdgeIndex0 ! xDim then 0
                   else (of_int (highEdgeIndex0 ! xDim) * gdx g ! xDim + gmin g ! xDim) - sts ! xDim) [0..<D];
               lowEdgeIndex = map (\<lambda>xDim. fixIndex g xDim (lowEdgeIndex0 ! xDim)) [0..<D];
               highEdgeIndex = map (\<lambda>xDim. fixIndex g xDim (highEdgeIndex0 ! xDim)) [0..<D]
           in interpolate g D distanceToLower distanceToHigher lowEdgeIndex highEdgeIndex))"

section \<open>Controllers (src/sourceJS/controllers.js, src/sourceJS/robot\_dynamics.js)\<close>

text \<open>
  Of a robot the controllers read the state vector and the matrix returned by
  \<^verbatim>\<open>controlCoefficient()\<close>, one row per control input.
\<close>

record Robot =
  states :: "real list"
  controlCoefficient :: "real list list"

definition QuadrotorRobot_controlCoefficient :: "real list list" where
  "QuadrotorRobot_controlCoefficient = [[0, 1, 0, 0], [0, 0, 0, 1]]"

definition VerticalQuadrotorRobot_controlCoefficient :: "real list list" where
  "VerticalQuadrotorRobot_controlCoefficient = [[0, 1]]"

definition DubinsRobot_controlCoefficient :: "real list list" where
  "DubinsRobot_controlCoefficient = [[0, 0, 1]]"

text \<open>
  A control vector is a JavaScript array that is filled by index, so a slot may never
  have been assigned: \<open>None\<close> is such a hole, which reads as \<^verbatim>\<open>undefined\<close>.
\<close>

type_synonym control = "real option list"

text \<open>\<^verbatim>\<open>arr[i] = v\<close>: beyond the end the array grows, leaving holes in between.\<close>

definition array_set :: "control \<Rightarrow> nat \<Rightarrow> real \<Rightarrow> control" where
  "array_set arr i v =
     (if i < length arr then arr[i := Some v]
      else arr @ replicate (i - length arr) None @ [Some v])"

text \<open>\<^verbatim>\<open>arr[i]\<close>: a hole and a read beyond the end both give \<^verbatim>\<open>undefined\<close>.\<close>

definition array_get :: "control \<Rightarrow> nat \<Rightarrow> real option" where
  "array_get arr i = (if i < length arr then arr ! i else None)"

text \<open>
  \<^verbatim>\<open>Safe_Contr.dotProduct(a,b)\<close> sums \<^verbatim>\<open>a[i] * b[i]\<close> for \<open>i < a.length\<close>. When
  \<open>b\<close> is shorter than \<open>a\<close>, some \<^verbatim>\<open>b[i]\<close> is \<^verbatim>\<open>undefined\<close> and the sum is NaN:
  \<open>None\<close>.
\<close>

definition dotProduct :: "real list \<Rightarrow> real list \<Rightarrow> real option" where
  "dotProduct a b =
     (if length a \<le> length b
      then Some (foldl (\<lambda>sum i. sum + a ! i * b ! i) 0 [0..<length a])
      else None)"

text \<open>\<^verbatim>\<open>d > 0\<close> and \<^verbatim>\<open>d < 0\<close>; both are false for NaN.\<close>

fun js_positive :: "real option \<Rightarrow> bool" where
  "js_positive (Some d) = (d > 0)"
| "js_positive None = False"

fun js_negative :: "real option \<Rightarrow> bool" where
  "js_negative (Some d) = (d < 0)"
| "js_negative None = False"

text \<open>
  \<^verbatim>\<open>Safe_Contr.u(momentum)\<close>: \<^verbatim>\<open>u_out\<close> starts as the empty array; for each control
  input two \<^verbatim>\<open>if\<close> statements without \<^verbatim>\<open>else\<close> assign \<open>maxU\<close> or \<open>-maxU\<close>.
\<close>

definition Safe_Contr_u :: "real list list \<Rightarrow> real \<Rightarrow> real list \<Rightarrow> control" where
  "Safe_Contr_u coefficient maxU momentum =
     foldl (\<lambda>u_out curU.
              let u1 = (if js_positive (dotProduct (coefficient ! curU) momentum)
                        then array_set u_out curU maxU else u_out);
                  u2 = (if js_negative (dotProduct (coefficient ! curU) momentum)
                        then array_set u1 curU (- maxU) else u1)
              in u2)
           [] [0..<length coefficient]"

text \<open>
  \<^verbatim>\<open>Intervention_Contr\<close>. The tracker is an object of some type \<open>'t\<close> whose method
  \<^verbatim>\<open>u()\<close> returns a control vector and may update the tracker (a PD controller
  remembers its last output); the method is passed as a function. The safe controller
  \<^verbatim>\<open>safer\<close> holds the same robot and \<open>maxU\<close>.
\<close>

record 't Intervention_Contr =
  robot :: Robot
  tracker :: 't
  safer_maxU :: real
  intervening_set :: "real list SafeSet"
  trigger_level :: real

definition Intervention_Contr_new ::
  "Robot \<Rightarrow> real list SafeSet \<Rightarrow> real \<Rightarrow> real \<Rightarrow> 't \<Rightarrow> 't Intervention_Contr" where
  "Intervention_Contr_new r safeset maxU maxD tr =
     \<lparr> robot = r, tracker = tr, safer_maxU = maxU, intervening_set = safeset, trigger_level = 0 \<rparr>"

definition Intervention_Contr_u ::
  "('t \<Rightarrow> control \<times> 't) \<Rightarrow> 't Intervention_Contr \<Rightarrow> control \<times> 't Intervention_Contr" where
  "Intervention_Contr_u tracker_u c =
     (if ss_value (intervening_set c) (states (robot c)) < trigger_level c
      then (Safe_Contr_u (controlCoefficient (robot c)) (safer_maxU c)
              (ss_gradV (intervening_set c) (states (robot c))), c)
      else (let (u_out, tracker') = tracker_u (tracker c)
            in (u_out, c\<lparr> tracker := tracker' \<rparr>)))"

section \<open>Example inputs\<close>

subsection \<open>Example obstaclescapes\<close>

text \<open>
  An obstacle whose three methods are constant: its value, its gradient and its
  collision value.
\<close>

definition constObstacle :: "real \<Rightarrow> real list \<Rightarrow> real \<Rightarrow> real list Obstacle" where
  "constObstacle v g c =
     \<lparr> ob_value = (\<lambda>setID sts. v), ob_gradV = (\<lambda>setID sts. g), ob_collisionSetValue = (\<lambda>sts. c) \<rparr>"

definition scape_far :: "real list Obstaclescape" where
  "scape_far = Obstaclescape_new [constObstacle 150 [1, 0] 150, constObstacle 120 [0, 1] 120]"

definition scape_hidden :: "real list Obstaclescape" where
  "scape_hidden = (Obstaclescape_new [constObstacle 1 [1, 0] 1, constObstacle 2 [0, 1] 150])
     \<lparr> obstacleUndetected := [False, True] \<rparr>"

definition scape_masked :: "real list Obstaclescape" where
  "scape_masked = (Obstaclescape_new
     [constObstacle 5 [1, 0] 5, constObstacle 3 [0, 1] 3, constObstacle 3 [1, 1] 3, constObstacle 1 [2, 2] 1])
     \<lparr> obstacleUndetected := [True, True, True, False] \<rparr>"

definition scape_cleared :: "real list Obstaclescape" where
  "scape_cleared = (Obstaclescape_new [constObstacle 1 [1, 0] 1, constObstacle 2 [0, 1] 2])
     \<lparr> obstacleDestroyed := [True, False], obstacleUndetected := [False, True] \<rparr>"

definition scape_near :: "real list Obstaclescape" where
  "scape_near = Obstaclescape_new
     [constObstacle 5 [1, 0] 5, constObstacle 3 [0, 1] 3, constObstacle 3 [1, 1] 3]"

definition scape_empty :: "real list Obstaclescape" where
  "scape_empty = Obstaclescape_new []"

subsection \<open>Example safe sets and controllers\<close>

text \<open>A safe set that is the half-space \<open>states[0] \<ge> c\<close>, with a fixed gradient.\<close>

definition halfspace :: "real \<Rightarrow> real list \<Rightarrow> real list SafeSet" where
  "halfspace c g = \<lparr> ss_value = (\<lambda>sts. sts ! 0 - c), ss_gradV = (\<lambda>sts. g) \<rparr>"

text \<open>
  A Dubins car at the origin under an intervention controller with trigger level
  \<open>1/10\<close>; the tracker is a stub that counts its calls and steers by the count.
\<close>

definition counting_tracker_u :: "real \<Rightarrow> control \<times> real" where
  "counting_tracker_u calls = ([Some (calls + 1)], calls + 1)"

definition dubins_intervener :: "real \<Rightarrow> real Intervention_Contr" where
  "dubins_intervener c =
     (Intervention_Contr_new \<lparr> states = [0, 0, 0], controlCoefficient = DubinsRobot_controlCoefficient \<rparr>
        (halfspace c [0, 0, 1]) 1 0 6) \<lparr> trigger_level := 1 / 10 \<rparr>"

subsection \<open>Example grids\<close>

text \<open>
  The grid of the specification's scenario; a one-axis grid of spacing 1/2; a one-axis
  periodic grid of three points with spacing 1.
\<close>

definition grid_scenario :: reachset where
  "grid_scenario = \<lparr> gmin = [-1, -1], gdx = [1, 1], gN = [3, 3], gperiodicity = [False, False],
     data = [Arr [Num 1, Num 1, Num 1], Arr [Num 1, Num 0, Num 1], Arr [Num 1, Num 1, Num 1]] \<rparr>"

definition grid_half :: reachset where
  "grid_half = \<lparr> gmin = [0], gdx = [1/2], gN = [3], gperiodicity = [False],
     data = [Num 1, Num 2, Num 3] \<rparr>"

definition grid_ring :: reachset where
  "grid_ring = \<lparr> gmin = [0], gdx = [1], gN = [3], gperiodicity = [True],
     data = [Num 10, Num 20, Num 30] \<rparr>"

section \<open>Properties\<close>


subsection \<open>The scans of the obstaclescape\<close>

lemma Min_insert_min:
  fixes a b :: real
  shows "finite S \<Longrightarrow> Min (insert (min a b) S) = Min (insert b (insert a S))"
  by (cases "S = {}") (auto simp: min.commute min.left_commute min.assoc)

lemma scan_min_general:
  fixes f :: "nat \<Rightarrow> real"
  shows "foldl (\<lambda>cur i. if E i then (let v = f i in if v < cur then v else cur) else cur) m js
         = Min (insert m (f ` {i \<in> set js. E i}))"
proof (induction js arbitrary: m)
  case Nil
  then show ?case by simp
next
  case (Cons j js)
  let ?step = "\<lambda>cur i. if E i then (let v = f i in if v < cur then v else cur) else cur"
  let ?S = "f ` {i \<in> set js. E i}"
  have fin: "finite ?S" by simp
  show ?case
  proof (cases "E j")
    case True
    have set_eq: "f ` {i \<in> set (j # js). E i} = insert (f j) ?S"
      using True by auto
    have "?step m j = min (f j) m"
      using True by (auto simp: Let_def min_def)
    then have "foldl ?step m (j # js) = foldl ?step (min (f j) m) js"
      by simp
    also have "\<dots> = Min (insert (min (f j) m) ?S)"
      by (rule Cons.IH)
    also have "\<dots> = Min (insert m (insert (f j) ?S))"
      by (rule Min_insert_min[OF fin])
    finally show ?thesis
      unfolding set_eq .
  next
    case False
    have set_eq: "f ` {i \<in> set (j # js). E i} = ?S"
      using False by auto
    have "?step m j = m"
      using False by simp
    then have "foldl ?step m (j # js) = foldl ?step m js"
      by simp
    also have "\<dots> = Min (insert m ?S)"
      by (rule Cons.IH)
    finally show ?thesis
      unfolding set_eq .
  qed
qed

lemma scan_argmin_general:
  fixes f :: "nat \<Rightarrow> real"
  assumes "foldl (\<lambda>(cur, d) i. if E i then (let v = f i in if v < cur then (v, i) else (cur, d))
                                 else (cur, d)) (m0, d0) [0..<k] = (r, d)"
  shows "r \<le> m0 \<and> (\<forall>j<k. E j \<longrightarrow> r \<le> f j)
       \<and> (r < m0 \<longrightarrow> d < k \<and> E d \<and> f d = r \<and> (\<forall>j<d. E j \<longrightarrow> r < f j))
       \<and> (\<not> r < m0 \<longrightarrow> d = d0 \<and> r = m0)"
  using assms
proof (induction k arbitrary: r d)
  case 0
  then show ?case by simp
next
  case (Suc k)
  let ?step = "\<lambda>(cur, d) i. if E i then (let v = f i in if v < cur then (v, i) else (cur, d))
                                 else (cur, d)"
  define res where "res = foldl ?step (m0, d0) [0..<k]"
  obtain r' d' where res: "res = (r', d')"
    by (cases res)
  have prev: "foldl ?step (m0, d0) [0..<k] = (r', d')"
    using res by (simp only: res_def)
  note ih = Suc.IH[OF prev]
  have eq: "foldl ?step (m0, d0) [0..<Suc k] = ?step (r', d') k"
    by (simp only: upt_Suc_append[OF le0] foldl_append foldl_Cons foldl_Nil prev)
  have "?step (r', d') k = (r, d)"
    using Suc.prems by (simp only: eq)
  then have step: "(r, d) = (if E k then (if f k < r' then (f k, k) else (r', d')) else (r', d'))"
    by (auto simp: Let_def split: if_splits)
  show ?case
  proof (cases "E k \<and> f k < r'")
    case True
    then have rd: "r = f k" "d = k" using step by auto
    have a: "r \<le> m0" using ih True rd by auto
    have b: "\<forall>j<Suc k. E j \<longrightarrow> r \<le> f j"
      using ih True rd by (auto simp: less_Suc_eq)
    have c: "\<forall>j<d. E j \<longrightarrow> r < f j"
      using ih True rd by auto
    have e: "r < m0" using ih True rd by auto
    show ?thesis using a b c e True rd by simp
  next
    case False
    then have rd: "r = r'" "d = d'" using step by (auto split: if_splits)
    have b: "\<forall>j<Suc k. E j \<longrightarrow> r \<le> f j"
      using ih False rd by (auto simp: less_Suc_eq)
    have c: "r < m0 \<longrightarrow> d < Suc k"
      using ih rd by auto
    show ?thesis using ih b c unfolding rd by simp
  qed
qed


lemma scan_fst_general:
  fixes f :: "nat \<Rightarrow> real"
  shows "fst (foldl (\<lambda>(cur, d) i. if E i then (let v = f i in if v < cur then (v, i) else (cur, d))
                                   else (cur, d)) (m, d0) js)
         = foldl (\<lambda>cur i. if E i then (let v = f i in if v < cur then v else cur) else cur) m js"
  by (induction js arbitrary: m d0) (simp_all add: Let_def)

lemma Obstaclescape_value_Min:
  "Obstaclescape_value sc setID sts =
     Min (insert 100 ((\<lambda>obNum. ob_value (obstacles sc ! obNum) setID sts) `
                        {obNum. obNum < length (obstacles sc) \<and> unionEligible sc obNum}))"
proof -
  have "{i \<in> set [0..<length (obstacles sc)]. unionEligible sc i}
        = {obNum. obNum < length (obstacles sc) \<and> unionEligible sc obNum}"
    by auto
  then show ?thesis
    unfolding Obstaclescape_value_def
    using scan_min_general[of "unionEligible sc" "\<lambda>obNum. ob_value (obstacles sc ! obNum) setID sts"
        100 "[0..<length (obstacles sc)]"]
    by simp
qed

lemma dominantScan_fst: "fst (dominantScan sc setID sts) = Obstaclescape_value sc setID sts"
  unfolding dominantScan_def Obstaclescape_value_def
  by (rule scan_fst_general)

lemma dominantScan_props:
  assumes "dominantScan sc setID sts = (r, d)"
  shows "r \<le> 100 \<and> (\<forall>j<length (obstacles sc). unionEligible sc j \<longrightarrow> r \<le> ob_value (obstacles sc ! j) setID sts)
       \<and> (r < 100 \<longrightarrow> d < length (obstacles sc) \<and> unionEligible sc d
              \<and> ob_value (obstacles sc ! d) setID sts = r
              \<and> (\<forall>j<d. unionEligible sc j \<longrightarrow> r < ob_value (obstacles sc ! j) setID sts))
       \<and> (\<not> r < 100 \<longrightarrow> d = 0 \<and> r = 100)"
  using assms unfolding dominantScan_def
  by (rule scan_argmin_general)

lemma collisionScan_props:
  assumes "Obstaclescape_collisionSetValue sc sts = (r, d)"
  shows "r \<le> 100 \<and> (\<forall>j<length (obstacles sc). collisionEligible sc j \<longrightarrow> r \<le> ob_collisionSetValue (obstacles sc ! j) sts)
       \<and> (r < 100 \<longrightarrow> d < length (obstacles sc) \<and> collisionEligible sc d
              \<and> ob_collisionSetValue (obstacles sc ! d) sts = r
              \<and> (\<forall>j<d. collisionEligible sc j \<longrightarrow> r < ob_collisionSetValue (obstacles sc ! j) sts))
       \<and> (\<not> r < 100 \<longrightarrow> d = 0 \<and> r = 100)"
  using assms unfolding Obstaclescape_collisionSetValue_def
  by (rule scan_argmin_general)


lemmas ex_defs = scape_far_def scape_near_def scape_hidden_def scape_masked_def scape_cleared_def
  scape_empty_def Obstaclescape_new_def constObstacle_def
  unionEligible_def collisionEligible_def flag_is_def


text \<open>
  Claim C5, as amended. For every setID, state and flag configuration,
  \<^verbatim>\<open>Obstaclescape.value\<close> is the smallest of the sentinel 100 and the values of
  exactly the obstacles that are neither destroyed nor undetected: it is their minimum
  whenever that is below 100. With no such obstacle it returns the sentinel 100; no
  error is raised.
\<close>

theorem Obstaclescape_value_sentinel_min:
  "Obstaclescape_value sc setID sts =
     Min (insert 100 ((\<lambda>obNum. ob_value (obstacles sc ! obNum) setID sts) `
                        {obNum. obNum < length (obstacles sc) \<and> unionEligible sc obNum}))
   \<and> ((\<forall>obNum<length (obstacles sc). \<not> unionEligible sc obNum)
        \<longrightarrow> Obstaclescape_value sc setID sts = 100)"
proof -
  have m: "Obstaclescape_value sc setID sts =
     Min (insert 100 ((\<lambda>obNum. ob_value (obstacles sc ! obNum) setID sts) `
                        {obNum. obNum < length (obstacles sc) \<and> unionEligible sc obNum}))"
    by (rule Obstaclescape_value_Min)
  have "Obstaclescape_value sc setID sts = 100"
    if none: "\<forall>obNum<length (obstacles sc). \<not> unionEligible sc obNum"
  proof -
    have e: "{obNum. obNum < length (obstacles sc) \<and> unionEligible sc obNum} = {}"
      using none by auto
    show ?thesis unfolding m e by simp
  qed
  then show ?thesis using m by blast
qed

text \<open>
  The amended C5 at three visible obstacles with values 5, 3 and 3, and at a scape
  whose obstacles are all destroyed or undetected.
\<close>

theorem Obstaclescape_value_sentinel_min_witness:
  "Obstaclescape_value scape_near 0 [0, 0] = 3
   \<and> Min (insert 100 ((\<lambda>obNum. ob_value (obstacles scape_near ! obNum) 0 [0, 0]) `
                        {obNum. obNum < length (obstacles scape_near) \<and> unionEligible scape_near obNum})) = 3
   \<and> length (obstacles scape_cleared) = 2
   \<and> \<not> unionEligible scape_cleared 0 \<and> \<not> unionEligible scape_cleared 1
   \<and> Obstaclescape_value scape_cleared 0 [0, 0] = 100"
proof -
  have v: "Obstaclescape_value scape_near 0 [0, 0] = 3"
    by (simp add: Obstaclescape_value_def ex_defs upt_rec)
  have none: "\<forall>obNum<length (obstacles scape_cleared). \<not> unionEligible scape_cleared obNum"
    by (simp add: ex_defs less_Suc_eq)
  show ?thesis
    using v none Obstaclescape_value_sentinel_min[of scape_near 0 "[0, 0]"]
      Obstaclescape_value_sentinel_min[of scape_cleared 0 "[0, 0]"]
    by (simp add: ex_defs)
qed

text \<open>
  Claim C5 as stated fails when every eligible obstacle is 100 or more away: two
  eligible obstacles with values 150 and 120 give 100, not their minimum 120.
\<close>

theorem Obstaclescape_value_min_counterexample:
  "unionEligible scape_far 0 \<and> unionEligible scape_far 1 \<and> length (obstacles scape_far) = 2
   \<and> ob_value (obstacles scape_far ! 0) 0 [0, 0] = 150
   \<and> ob_value (obstacles scape_far ! 1) 0 [0, 0] = 120
   \<and> Obstaclescape_value scape_far 0 [0, 0] = 100
   \<and> Obstaclescape_value scape_far 0 [0, 0]
       \<noteq> min (ob_value (obstacles scape_far ! 0) 0 [0, 0]) (ob_value (obstacles scape_far ! 1) 0 [0, 0])"
  by (simp add: Obstaclescape_value_def ex_defs upt_rec)


text \<open>
  Claim C6, as amended. Whenever some eligible obstacle has a value below the sentinel
  100, \<^verbatim>\<open>Obstaclescape.gradV\<close> returns the gradient of an eligible obstacle \<open>d\<close>
  whose value is minimal among the eligible ones, every eligible obstacle before \<open>d\<close>
  has a strictly larger value (the first minimal one wins a tie), and the value of
  \<open>d\<close> is what \<^verbatim>\<open>Obstaclescape.value\<close> returns under the same flags.
\<close>

theorem Obstaclescape_gradV_dominant:
  assumes some: "\<exists>obNum<length (obstacles sc).
                   unionEligible sc obNum \<and> ob_value (obstacles sc ! obNum) setID sts < 100"
  shows "\<exists>d<length (obstacles sc). unionEligible sc d
           \<and> (\<forall>j<length (obstacles sc). unionEligible sc j \<longrightarrow>
                  ob_value (obstacles sc ! d) setID sts \<le> ob_value (obstacles sc ! j) setID sts)
           \<and> (\<forall>j<d. unionEligible sc j \<longrightarrow>
                  ob_value (obstacles sc ! d) setID sts < ob_value (obstacles sc ! j) setID sts)
           \<and> Obstaclescape_value sc setID sts = ob_value (obstacles sc ! d) setID sts
           \<and> Obstaclescape_gradV sc setID sts = Inr (ob_gradV (obstacles sc ! d) setID sts)"
proof -
  obtain r d where rd: "dominantScan sc setID sts = (r, d)"
    by (cases "dominantScan sc setID sts")
  note p = dominantScan_props[OF rd]
  from some obtain i where i: "i < length (obstacles sc)" "unionEligible sc i"
      "ob_value (obstacles sc ! i) setID sts < 100"
    by blast
  have "r \<le> ob_value (obstacles sc ! i) setID sts"
    using p i by blast
  then have lt: "r < 100"
    using i by simp
  have d: "d < length (obstacles sc)" "unionEligible sc d"
      "ob_value (obstacles sc ! d) setID sts = r"
      "\<forall>j<d. unionEligible sc j \<longrightarrow> r < ob_value (obstacles sc ! j) setID sts"
    using p lt by blast+
  have v: "Obstaclescape_value sc setID sts = r"
    using dominantScan_fst[of sc setID sts] rd by simp
  have g: "Obstaclescape_gradV sc setID sts = Inr (ob_gradV (obstacles sc ! d) setID sts)"
    using rd d(1) by (simp add: Obstaclescape_gradV_def)
  have le: "\<forall>j<length (obstacles sc). unionEligible sc j \<longrightarrow>
                  ob_value (obstacles sc ! d) setID sts \<le> ob_value (obstacles sc ! j) setID sts"
    using p d(3) by simp
  show ?thesis
    using d le v g by (intro exI[of _ d]) simp
qed

text \<open>
  The amended C6 at three visible obstacles with values 5, 3 and 3: the hypothesis
  holds and the obstacle selected is obstacle 1, the first of the two minimal ones.
\<close>

theorem Obstaclescape_gradV_dominant_witness:
  "(\<exists>obNum<length (obstacles scape_near).
       unionEligible scape_near obNum \<and> ob_value (obstacles scape_near ! obNum) 0 [0, 0] < 100)
   \<and> Obstaclescape_value scape_near 0 [0, 0] = ob_value (obstacles scape_near ! 1) 0 [0, 0]
   \<and> Obstaclescape_gradV scape_near 0 [0, 0] = Inr (ob_gradV (obstacles scape_near ! 1) 0 [0, 0])
   \<and> ob_gradV (obstacles scape_near ! 1) 0 [0, 0] = [0, 1]"
proof -
  have h: "\<exists>obNum<length (obstacles scape_near).
       unionEligible scape_near obNum \<and> ob_value (obstacles scape_near ! obNum) 0 [0, 0] < 100"
    by (rule exI[of _ 0]) (simp add: ex_defs)
  from Obstaclescape_gradV_dominant[OF h] obtain d where d:
    "d < length (obstacles scape_near)"
    "\<forall>j<length (obstacles scape_near). unionEligible scape_near j \<longrightarrow>
        ob_value (obstacles scape_near ! d) 0 [0, 0] \<le> ob_value (obstacles scape_near ! j) 0 [0, 0]"
    "\<forall>j<d. unionEligible scape_near j \<longrightarrow>
        ob_value (obstacles scape_near ! d) 0 [0, 0] < ob_value (obstacles scape_near ! j) 0 [0, 0]"
    "Obstaclescape_value scape_near 0 [0, 0] = ob_value (obstacles scape_near ! d) 0 [0, 0]"
    "Obstaclescape_gradV scape_near 0 [0, 0] = Inr (ob_gradV (obstacles scape_near ! d) 0 [0, 0])"
    by blast
  have len: "length (obstacles scape_near) = 3"
    by (simp add: ex_defs)
  have cases: "d = 0 \<or> d = 1 \<or> d = 2"
    using d(1) len by auto
  have not0: "d \<noteq> 0"
  proof
    assume "d = 0"
    then have "ob_value (obstacles scape_near ! 0) 0 [0, 0] \<le> ob_value (obstacles scape_near ! 1) 0 [0, 0]"
      using d(2)[rule_format, of 1] by (simp add: ex_defs)
    then show False by (simp add: ex_defs)
  qed
  have not2: "d \<noteq> 2"
  proof
    assume "d = 2"
    then have "ob_value (obstacles scape_near ! 2) 0 [0, 0] < ob_value (obstacles scape_near ! 1) 0 [0, 0]"
      using d(3)[rule_format, of 1] by (simp add: ex_defs)
    then show False by (simp add: ex_defs)
  qed
  have "d = 1" using cases not0 not2 by blast
  then show ?thesis
    using h d(4,5) by (simp add: ex_defs)
qed

text \<open>
  Claim C6 as stated fails when every eligible obstacle is 100 or more away: with two
  eligible obstacles of values 150 and 120 the gradient returned is that of obstacle 0,
  not that of the minimal obstacle 1.
\<close>

theorem Obstaclescape_gradV_dominant_counterexample:
  "unionEligible scape_far 0 \<and> unionEligible scape_far 1 \<and> length (obstacles scape_far) = 2
   \<and> ob_value (obstacles scape_far ! 0) 0 [0, 0] = 150
   \<and> ob_value (obstacles scape_far ! 1) 0 [0, 0] = 120
   \<and> Obstaclescape_gradV scape_far 0 [0, 0] = Inr (ob_gradV (obstacles scape_far ! 0) 0 [0, 0])
   \<and> Obstaclescape_gradV scape_far 0 [0, 0] \<noteq> Inr (ob_gradV (obstacles scape_far ! 1) 0 [0, 0])"
  by (simp add: Obstaclescape_gradV_def dominantScan_def ex_defs upt_rec)

text \<open>
  Claim C7, as amended. \<^verbatim>\<open>Obstaclescape.collisionSetValue\<close> scans exactly the
  obstacles that are not destroyed and are undetected. The value returned is the
  smallest of the sentinel 100 and their collision values. When it is below 100, the
  index returned is that of the first obstacle, in iteration order, that attains it;
  otherwise the pair returned is \<open>(100, 0)\<close>.
\<close>

theorem Obstaclescape_collisionSetValue_first_min:
  "(case Obstaclescape_collisionSetValue sc sts of (curMinValue, curMinOb) \<Rightarrow>
      curMinValue = Min (insert 100 ((\<lambda>obNum. ob_collisionSetValue (obstacles sc ! obNum) sts) `
                        {obNum. obNum < length (obstacles sc) \<and> collisionEligible sc obNum}))
      \<and> (curMinValue < 100 \<longrightarrow>
            curMinOb < length (obstacles sc) \<and> collisionEligible sc curMinOb
            \<and> ob_collisionSetValue (obstacles sc ! curMinOb) sts = curMinValue
            \<and> (\<forall>j<curMinOb. collisionEligible sc j \<longrightarrow>
                  curMinValue < ob_collisionSetValue (obstacles sc ! j) sts))
      \<and> (\<not> curMinValue < 100 \<longrightarrow> curMinValue = 100 \<and> curMinOb = 0))"
proof -
  obtain r d where rd: "Obstaclescape_collisionSetValue sc sts = (r, d)"
    by (cases "Obstaclescape_collisionSetValue sc sts")
  note p = collisionScan_props[OF rd]
  let ?S = "(\<lambda>obNum. ob_collisionSetValue (obstacles sc ! obNum) sts) `
                        {obNum. obNum < length (obstacles sc) \<and> collisionEligible sc obNum}"
  have "Min (insert 100 ?S) = r"
  proof (rule Min_eqI)
    show "finite (insert 100 ?S)" by simp
    show "r \<le> y" if "y \<in> insert 100 ?S" for y
      using that p by auto
    show "r \<in> insert 100 ?S"
    proof (cases "r < 100")
      case True
      then show ?thesis using p by auto
    next
      case False
      then show ?thesis using p by simp
    qed
  qed
  then show ?thesis
    using p rd by simp
qed

text \<open>
  The amended C7 at four obstacles with collision values 5, 3, 3 and 1, the first
  three undetected and the last detected: the pair is \<open>(3, 1)\<close>, and the detected
  obstacle with the smallest value is left out.
\<close>

theorem Obstaclescape_collisionSetValue_first_min_witness:
  "Obstaclescape_collisionSetValue scape_masked [0, 0] = (3, 1)
   \<and> collisionEligible scape_masked 1 \<and> \<not> collisionEligible scape_masked 3
   \<and> ob_collisionSetValue (obstacles scape_masked ! 1) [0, 0] = 3
   \<and> ob_collisionSetValue (obstacles scape_masked ! 3) [0, 0] = 1
   \<and> Min (insert 100 ((\<lambda>obNum. ob_collisionSetValue (obstacles scape_masked ! obNum) [0, 0]) `
          {obNum. obNum < length (obstacles scape_masked) \<and> collisionEligible scape_masked obNum})) = 3"
proof -
  have v: "Obstaclescape_collisionSetValue scape_masked [0, 0] = (3, 1)"
    by (simp add: Obstaclescape_collisionSetValue_def ex_defs upt_rec)
  show ?thesis
    using v Obstaclescape_collisionSetValue_first_min[of scape_masked "[0, 0]"]
    by (simp add: ex_defs)
qed

text \<open>
  Claim C7 as stated fails when every eligible obstacle is 100 or more away: with
  obstacle 0 detected and obstacle 1 undetected at collision value 150, the pair
  returned is \<open>(100, 0)\<close>: neither the minimal value 150 nor the index 1 of the
  obstacle that attains it.
\<close>

theorem Obstaclescape_collisionSetValue_counterexample:
  "\<not> collisionEligible scape_hidden 0 \<and> collisionEligible scape_hidden 1
   \<and> length (obstacles scape_hidden) = 2
   \<and> ob_collisionSetValue (obstacles scape_hidden ! 1) [0, 0] = 150
   \<and> Obstaclescape_collisionSetValue scape_hidden [0, 0] = (100, 0)
   \<and> Obstaclescape_collisionSetValue scape_hidden [0, 0]
       \<noteq> (ob_collisionSetValue (obstacles scape_hidden ! 1) [0, 0], 1)"
  by (simp add: Obstaclescape_collisionSetValue_def ex_defs upt_rec)

text \<open>
  Claim C10, as amended. When no obstacle is eligible (each is destroyed or
  undetected), \<^verbatim>\<open>Obstaclescape.value\<close> returns the sentinel 100, and
  \<^verbatim>\<open>Obstaclescape.gradV\<close> returns neither a sentinel nor a gradient of its own: in a
  scape with at least one obstacle it returns \<^verbatim>\<open>obstacles[0].gradV(setID,states)\<close>,
  the gradient of an ineligible obstacle, and no error; in an empty scape
  \<^verbatim>\<open>obstacles[0]\<close> is \<^verbatim>\<open>undefined\<close> and the call throws a TypeError.
\<close>

theorem Obstaclescape_gradV_no_eligible:
  assumes none: "\<forall>obNum<length (obstacles sc). \<not> unionEligible sc obNum"
  shows "Obstaclescape_value sc setID sts = 100
         \<and> Obstaclescape_gradV sc setID sts =
             (if obstacles sc = [] then Inl TypeError
              else Inr (ob_gradV (obstacles sc ! 0) setID sts))"
proof -
  obtain r d where rd: "dominantScan sc setID sts = (r, d)"
    by (cases "dominantScan sc setID sts")
  note p = dominantScan_props[OF rd]
  have "\<not> r < 100"
    using p none by blast
  then have "d = 0" "r = 100"
    using p by blast+
  moreover have "Obstaclescape_value sc setID sts = r"
    using dominantScan_fst[of sc setID sts] rd by simp
  ultimately show ?thesis
    using rd by (simp add: Obstaclescape_gradV_def)
qed

text \<open>
  The amended C10 at a scape of two obstacles, the first destroyed and the second
  undetected, and at the empty scape.
\<close>

theorem Obstaclescape_gradV_no_eligible_witness:
  "length (obstacles scape_cleared) = 2
   \<and> \<not> unionEligible scape_cleared 0 \<and> \<not> unionEligible scape_cleared 1
   \<and> Obstaclescape_value scape_cleared 0 [0, 0] = 100
   \<and> Obstaclescape_gradV scape_cleared 0 [0, 0] = Inr [1, 0]
   \<and> ob_gradV (obstacles scape_cleared ! 0) 0 [0, 0] = [1, 0]
   \<and> obstacles scape_empty = []
   \<and> Obstaclescape_value scape_empty 0 [0, 0] = 100
   \<and> Obstaclescape_gradV scape_empty 0 [0, 0] = Inl TypeError"
proof -
  have none: "\<forall>obNum<length (obstacles scape_cleared). \<not> unionEligible scape_cleared obNum"
    by (simp add: ex_defs less_Suc_eq)
  have none': "\<forall>obNum<length (obstacles scape_empty). \<not> unionEligible scape_empty obNum"
    by (simp add: ex_defs)
  show ?thesis
    using Obstaclescape_gradV_no_eligible[OF none, of 0 "[0, 0]"]
      Obstaclescape_gradV_no_eligible[OF none', of 0 "[0, 0]"]
    by (simp add: ex_defs)
qed

text \<open>
  Claim C10 as stated fails on the empty scape: no obstacle is eligible there, and
  \<^verbatim>\<open>Obstaclescape.gradV\<close> raises a TypeError, while \<^verbatim>\<open>Obstaclescape.value\<close>
  returns the sentinel.
\<close>

theorem Obstaclescape_gradV_empty_counterexample:
  "length (obstacles scape_empty) = 0
   \<and> Obstaclescape_value scape_empty 0 [0, 0] = 100
   \<and> Obstaclescape_gradV scape_empty 0 [0, 0] = Inl TypeError"
  by (simp add: Obstaclescape_gradV_def Obstaclescape_value_def dominantScan_def ex_defs)

subsection \<open>Evaluation of floors and ceilings\<close>

lemma ceiling_one_divide_numeral:
  "\<lceil>1 / numeral b :: real\<rceil> = - (- 1 div numeral b)"
  using ceiling_divide_eq_div[of 1 "numeral b"] by simp

lemma ceiling_minus_one_divide_numeral:
  "\<lceil>- (1 / numeral b) :: real\<rceil> = - (1 div numeral b)"
  using ceiling_divide_eq_div[of "- 1" "numeral b"] by simp

lemmas grid_defs = ceiling_one_divide_numeral ceiling_minus_one_divide_numeral loaded_SafeSet_value_def interpolate_def nearIndices_def gridCovers_def gridQuotient_def gN_at_def periodic_at_def
  wrapIndex_def clampIndex_def fixIndex_def cornerTerm_def cornerBit_def griddedValue_def Let_def


subsection \<open>The union, the controllers and the analytic gradients\<close>

lemmas set_defs = halfspace_def UnionedSafeSet_def UnionedSafeSet_value_def UnionedSafeSet_gradV_def

text \<open>
  Claim C2. For all safe sets A and B and every state, the value of the union is the
  minimum of the two values, and its gradient is that of A when the value of A is
  strictly smaller and that of B otherwise, so that B wins a tie.
\<close>

theorem UnionedSafeSet_min:
  "ss_value (UnionedSafeSet setA setB) sts = min (ss_value setA sts) (ss_value setB sts)
   \<and> ss_gradV (UnionedSafeSet setA setB) sts =
       (if ss_value setA sts < ss_value setB sts then ss_gradV setA sts else ss_gradV setB sts)"
  by (simp add: UnionedSafeSet_def UnionedSafeSet_value_def UnionedSafeSet_gradV_def Let_def min_def)

text \<open>
  Claim C2 at two half-spaces: A below B, B below A, and a tie.
\<close>

theorem UnionedSafeSet_min_witness:
  "ss_value (UnionedSafeSet (halfspace 1 [1, 0]) (halfspace 2 [0, 1])) [5, 0] = 3
   \<and> ss_gradV (UnionedSafeSet (halfspace 1 [1, 0]) (halfspace 2 [0, 1])) [5, 0] = [0, 1]
   \<and> ss_value (UnionedSafeSet (halfspace 2 [1, 0]) (halfspace 1 [0, 1])) [5, 0] = 3
   \<and> ss_gradV (UnionedSafeSet (halfspace 2 [1, 0]) (halfspace 1 [0, 1])) [5, 0] = [1, 0]
   \<and> ss_value (UnionedSafeSet (halfspace 1 [1, 0]) (halfspace 1 [0, 1])) [5, 0] = 4
   \<and> ss_gradV (UnionedSafeSet (halfspace 1 [1, 0]) (halfspace 1 [0, 1])) [5, 0] = [0, 1]"
  using UnionedSafeSet_min[of "halfspace 1 [1, 0]" "halfspace 2 [0, 1]" "[5, 0]"]
    UnionedSafeSet_min[of "halfspace 2 [1, 0]" "halfspace 1 [0, 1]" "[5, 0]"]
    UnionedSafeSet_min[of "halfspace 1 [1, 0]" "halfspace 1 [0, 1]" "[5, 0]"]
  by (simp add: halfspace_def)

lemmas contr_defs = Safe_Contr_u_def dotProduct_def array_set_def array_get_def
  QuadrotorRobot_controlCoefficient_def VerticalQuadrotorRobot_controlCoefficient_def
  DubinsRobot_controlCoefficient_def Let_def

lemma array_get_array_set:
  assumes "length arr \<le> k"
  shows "length (array_set arr k v) = Suc k"
    and "array_get (array_set arr k v) i = (if i = k then Some v else array_get arr i)"
  using assms by (auto simp: array_set_def array_get_def nth_append)

lemma Safe_Contr_u_prefix:
  fixes coefficient maxU momentum
  defines "step \<equiv> (\<lambda>u_out curU.
              let u1 = (if js_positive (dotProduct (coefficient ! curU) momentum)
                        then array_set u_out curU maxU else u_out);
                  u2 = (if js_negative (dotProduct (coefficient ! curU) momentum)
                        then array_set u1 curU (- maxU) else u1)
              in u2)"
  shows "length (foldl step [] [0..<k]) \<le> k
       \<and> (\<forall>i. array_get (foldl step [] [0..<k]) i =
             (if i < k \<and> js_positive (dotProduct (coefficient ! i) momentum) then Some maxU
              else if i < k \<and> js_negative (dotProduct (coefficient ! i) momentum) then Some (- maxU)
              else None))"
proof (induction k)
  case 0
  show ?case by (simp add: array_get_def)
next
  case (Suc k)
  let ?u = "foldl step [] [0..<k]"
  let ?d = "dotProduct (coefficient ! k) momentum"
  have len: "length ?u \<le> k" using Suc.IH by blast
  have slots: "\<And>i. array_get ?u i =
             (if i < k \<and> js_positive (dotProduct (coefficient ! i) momentum) then Some maxU
              else if i < k \<and> js_negative (dotProduct (coefficient ! i) momentum) then Some (- maxU)
              else None)"
    using Suc.IH by blast
  have excl: "\<not> (js_positive ?d \<and> js_negative ?d)"
    by (cases ?d) auto
  have unfold: "foldl step [] [0..<Suc k] = step ?u k"
    by simp
  consider (pos) "js_positive ?d" "\<not> js_negative ?d"
    | (neg) "js_negative ?d" "\<not> js_positive ?d"
    | (zero) "\<not> js_positive ?d" "\<not> js_negative ?d"
    using excl by blast
  then show ?case
  proof cases
    case pos
    then have s: "step ?u k = array_set ?u k maxU"
      by (simp add: step_def Let_def)
    show ?thesis
      unfolding unfold s
      using array_get_array_set[OF len, of maxU] slots pos
      by (auto simp: less_Suc_eq)
  next
    case neg
    then have s: "step ?u k = array_set ?u k (- maxU)"
      by (simp add: step_def Let_def)
    show ?thesis
      unfolding unfold s
      using array_get_array_set[OF len, of "- maxU"] slots neg
      by (auto simp: less_Suc_eq)
  next
    case zero
    then have s: "step ?u k = ?u"
      by (simp add: step_def Let_def)
    show ?thesis
      unfolding unfold s
      using len slots zero
      by (auto simp: less_Suc_eq)
  qed
qed

text \<open>
  Claim C3, as the code has it. For every momentum vector and every control input \<open>i\<close>,
  the slot \<open>i\<close> of the array returned by \<^verbatim>\<open>Safe_Contr.u\<close> holds \<open>maxU\<close> when the dot
  product of row \<open>i\<close> of the control-coefficient matrix with the momentum is strictly
  positive and \<open>-maxU\<close> when it is strictly negative. In every other case, a dot
  product of exactly zero among them, the slot is never assigned and reads as
  \<^verbatim>\<open>undefined\<close>: it does not hold 0.
\<close>

theorem Safe_Contr_u_slots:
  "array_get (Safe_Contr_u coefficient maxU momentum) i =
     (if i < length coefficient \<and> js_positive (dotProduct (coefficient ! i) momentum) then Some maxU
      else if i < length coefficient \<and> js_negative (dotProduct (coefficient ! i) momentum)
      then Some (- maxU)
      else None)"
  using Safe_Contr_u_prefix[of coefficient momentum maxU "length coefficient"]
  unfolding Safe_Contr_u_def by blast

text \<open>
  Claim C3 at its failing inputs. With a dot product of exactly zero the slot of that
  control input is never assigned: for the one-input quadrotor the array returned is
  empty, for the two-input quadrotor it has a hole at index 0. In both the read of
  slot 0 gives \<^verbatim>\<open>undefined\<close>, not 0.
\<close>

theorem Safe_Contr_u_zero_dot_unassigned:
  "dotProduct (VerticalQuadrotorRobot_controlCoefficient ! 0) [1, 0] = Some 0
   \<and> Safe_Contr_u VerticalQuadrotorRobot_controlCoefficient 1 [1, 0] = []
   \<and> array_get (Safe_Contr_u VerticalQuadrotorRobot_controlCoefficient 1 [1, 0]) 0 = None
   \<and> dotProduct (QuadrotorRobot_controlCoefficient ! 0) [0, 0, 0, 1] = Some 0
   \<and> Safe_Contr_u QuadrotorRobot_controlCoefficient 1 [0, 0, 0, 1] = [None, Some 1]
   \<and> array_get (Safe_Contr_u QuadrotorRobot_controlCoefficient 1 [0, 0, 0, 1]) 0 = None
   \<and> array_get (Safe_Contr_u QuadrotorRobot_controlCoefficient 1 [0, 0, 0, 1]) 1 = Some 1"
proof -
  have d1: "dotProduct (VerticalQuadrotorRobot_controlCoefficient ! 0) [1, 0] = Some 0"
    by (simp add: contr_defs upt_rec)
  have d2: "dotProduct (QuadrotorRobot_controlCoefficient ! 0) [0, 0, 0, 1] = Some 0"
    by (simp add: contr_defs upt_rec)
  have d3: "dotProduct (QuadrotorRobot_controlCoefficient ! 1) [0, 0, 0, 1] = Some 1"
    by (simp add: contr_defs upt_rec)
  have u1: "Safe_Contr_u VerticalQuadrotorRobot_controlCoefficient 1 [1, 0] = []"
    by (simp add: contr_defs upt_rec)
  have u2: "Safe_Contr_u QuadrotorRobot_controlCoefficient 1 [0, 0, 0, 1] = [None, Some 1]"
    by (simp add: contr_defs upt_rec)
  have s1: "array_get (Safe_Contr_u VerticalQuadrotorRobot_controlCoefficient 1 [1, 0]) 0 = None"
    using Safe_Contr_u_slots[of VerticalQuadrotorRobot_controlCoefficient 1 "[1, 0]" 0] d1
    by simp
  have s2: "array_get (Safe_Contr_u QuadrotorRobot_controlCoefficient 1 [0, 0, 0, 1]) 0 = None"
    using Safe_Contr_u_slots[of QuadrotorRobot_controlCoefficient 1 "[0, 0, 0, 1]" 0] d2
    by simp
  have s3: "array_get (Safe_Contr_u QuadrotorRobot_controlCoefficient 1 [0, 0, 0, 1]) 1 = Some 1"
    using Safe_Contr_u_slots[of QuadrotorRobot_controlCoefficient 1 "[0, 0, 0, 1]" 1] d3
    by (simp add: QuadrotorRobot_controlCoefficient_def)
  show ?thesis
    using d1 d2 u1 u2 s1 s2 s3 by simp
qed

text \<open>
  Claim C4. On every call, \<^verbatim>\<open>Intervention_Contr.u\<close> returns the output of the safe
  controller at the gradient of the intervening set when the safety value at the robot's
  state is strictly below \<open>trigger_level\<close>, and otherwise the output of the tracker,
  unmodified. With \<open>trigger_level = 0.1\<close>, a value of 0.05 takes the safe branch and a
  value of 0.2 the tracking branch.
\<close>

theorem Intervention_Contr_u_switch:
  "(ss_value (intervening_set c) (states (robot c)) < trigger_level c \<longrightarrow>
      Intervention_Contr_u tracker_u c =
        (Safe_Contr_u (controlCoefficient (robot c)) (safer_maxU c)
           (ss_gradV (intervening_set c) (states (robot c))), c))
   \<and> (\<not> ss_value (intervening_set c) (states (robot c)) < trigger_level c \<longrightarrow>
      Intervention_Contr_u tracker_u c =
        (fst (tracker_u (tracker c)), c\<lparr> tracker := snd (tracker_u (tracker c)) \<rparr>))
   \<and> (trigger_level c = 1 / 10 \<and> ss_value (intervening_set c) (states (robot c)) = 1 / 20 \<longrightarrow>
      fst (Intervention_Contr_u tracker_u c) =
        Safe_Contr_u (controlCoefficient (robot c)) (safer_maxU c)
           (ss_gradV (intervening_set c) (states (robot c))))
   \<and> (trigger_level c = 1 / 10 \<and> ss_value (intervening_set c) (states (robot c)) = 1 / 5 \<longrightarrow>
      fst (Intervention_Contr_u tracker_u c) = fst (tracker_u (tracker c)))"
  by (simp add: Intervention_Contr_u_def Let_def split_beta)

text \<open>
  Claim C4 at a Dubins car with trigger level 0.1: at value 0.05 the output is the safe
  control \<open>[maxU]\<close> and the tracker is not called; at value 0.2 the output is the
  tracker's.
\<close>

theorem Intervention_Contr_u_switch_witness:
  "ss_value (intervening_set (dubins_intervener (- 1 / 20))) (states (robot (dubins_intervener (- 1 / 20)))) = 1 / 20
   \<and> trigger_level (dubins_intervener (- 1 / 20)) = 1 / 10
   \<and> fst (Intervention_Contr_u counting_tracker_u (dubins_intervener (- 1 / 20))) = [Some 1]
   \<and> tracker (snd (Intervention_Contr_u counting_tracker_u (dubins_intervener (- 1 / 20)))) = 6
   \<and> ss_value (intervening_set (dubins_intervener (- 1 / 5))) (states (robot (dubins_intervener (- 1 / 5)))) = 1 / 5
   \<and> fst (Intervention_Contr_u counting_tracker_u (dubins_intervener (- 1 / 5))) = [Some 7]
   \<and> tracker (snd (Intervention_Contr_u counting_tracker_u (dubins_intervener (- 1 / 5)))) = 7"
  using Intervention_Contr_u_switch[of "dubins_intervener (- 1 / 20)" counting_tracker_u]
    Intervention_Contr_u_switch[of "dubins_intervener (- 1 / 5)" counting_tracker_u]
  by (simp add: dubins_intervener_def Intervention_Contr_new_def halfspace_def counting_tracker_u_def
      contr_defs upt_rec)

subsection \<open>The loaded grid\<close>

lemma nearIndices_nowrap:
  assumes "gridCovers g sts"
  shows "nearIndices g sts False =
           Some (map (\<lambda>xDim. \<lfloor>gridQuotient g sts xDim\<rfloor>) [0..<length sts],
                 map (\<lambda>xDim. \<lceil>gridQuotient g sts xDim\<rceil>) [0..<length sts])"
  using assms by (auto simp: nearIndices_def Let_def list_all_iff comp_def)

lemma loaded_SafeSet_value_unfold:
  assumes "gridCovers g sts"
  shows "loaded_SafeSet_value g sts =
    interpolate g (length sts)
      (map (\<lambda>xDim.
             if \<lfloor>gridQuotient g sts xDim\<rfloor> = \<lceil>gridQuotient g sts xDim\<rceil> then 1
             else sts ! xDim - (of_int \<lfloor>gridQuotient g sts xDim\<rfloor> * gdx g ! xDim + gmin g ! xDim))
         [0..<length sts])
      (map (\<lambda>xDim.
             if \<lfloor>gridQuotient g sts xDim\<rfloor> = \<lceil>gridQuotient g sts xDim\<rceil> then 0
             else (of_int \<lceil>gridQuotient g sts xDim\<rceil> * gdx g ! xDim + gmin g ! xDim) - sts ! xDim)
         [0..<length sts])
      (map (\<lambda>xDim. fixIndex g xDim \<lfloor>gridQuotient g sts xDim\<rfloor>) [0..<length sts])
      (map (\<lambda>xDim. fixIndex g xDim \<lceil>gridQuotient g sts xDim\<rceil>) [0..<length sts])"
proof -
  let ?lo = "map (\<lambda>xDim. \<lfloor>gridQuotient g sts xDim\<rfloor>) [0..<length sts]"
  let ?hi = "map (\<lambda>xDim. \<lceil>gridQuotient g sts xDim\<rceil>) [0..<length sts]"
  have e1: "map (\<lambda>xDim. if ?lo ! xDim = ?hi ! xDim then 1
                 else sts ! xDim - (of_int (?lo ! xDim) * gdx g ! xDim + gmin g ! xDim)) [0..<length sts]
          = map (\<lambda>xDim. if \<lfloor>gridQuotient g sts xDim\<rfloor> = \<lceil>gridQuotient g sts xDim\<rceil> then 1
                 else sts ! xDim - (of_int \<lfloor>gridQuotient g sts xDim\<rfloor> * gdx g ! xDim + gmin g ! xDim))
              [0..<length sts]"
    by (rule map_cong) simp_all
  have e2: "map (\<lambda>xDim. if ?lo ! xDim = ?hi ! xDim then 0
                 else (of_int (?hi ! xDim) * gdx g ! xDim + gmin g ! xDim) - sts ! xDim) [0..<length sts]
          = map (\<lambda>xDim. if \<lfloor>gridQuotient g sts xDim\<rfloor> = \<lceil>gridQuotient g sts xDim\<rceil> then 0
                 else (of_int \<lceil>gridQuotient g sts xDim\<rceil> * gdx g ! xDim + gmin g ! xDim) - sts ! xDim)
              [0..<length sts]"
    by (rule map_cong) simp_all
  have e3: "map (\<lambda>xDim. fixIndex g xDim (?lo ! xDim)) [0..<length sts]
          = map (\<lambda>xDim. fixIndex g xDim \<lfloor>gridQuotient g sts xDim\<rfloor>) [0..<length sts]"
    by (rule map_cong) simp_all
  have e4: "map (\<lambda>xDim. fixIndex g xDim (?hi ! xDim)) [0..<length sts]
          = map (\<lambda>xDim. fixIndex g xDim \<lceil>gridQuotient g sts xDim\<rceil>) [0..<length sts]"
    by (rule map_cong) simp_all
  show ?thesis
    by (simp only: loaded_SafeSet_value_def nearIndices_nowrap[OF assms] option.case prod.case
        Let_def e1 e2 e3 e4)
qed

lemma gridCovers_axis:
  assumes "gridCovers g sts" "x < length sts"
  shows "x < length (gmin g) \<and> x < length (gdx g) \<and> gdx g ! x \<noteq> 0"
  using assms by (simp add: gridCovers_def list_all_iff)


text \<open>
  Claim C8 at a failing input: a one-axis periodic grid of three points with minimum 0,
  spacing 1 and the data 10, 20, 30. The state 5/2 lies in the cell that wraps from
  index 2 to index 0 and has the value 20. Its copy one period up, 11/2, has the
  enclosing indices 5 and 6; the correction subtracts 3 once, which leaves the upper
  index at 3, beyond the array, so that the corner read is \<^verbatim>\<open>undefined\<close> and the
  value is NaN. Every number in this evaluation is exact in doubles.
\<close>

theorem loaded_SafeSet_value_periodic_copy_diverges:
  "periodic_at grid_ring 0 \<and> gN_at grid_ring 0 = Some 3 \<and> gdx grid_ring ! 0 = 1
   \<and> nearIndices grid_ring [5 / 2] False = Some ([2], [3])
   \<and> fixIndex grid_ring 0 2 = Some 2 \<and> fixIndex grid_ring 0 3 = Some 0
   \<and> loaded_SafeSet_value grid_ring [5 / 2] = Some 20
   \<and> nearIndices grid_ring [5 / 2 + 3 * 1] False = Some ([5], [6])
   \<and> fixIndex grid_ring 0 5 = Some 2 \<and> fixIndex grid_ring 0 6 = Some 3
   \<and> js_index (Arr (data grid_ring)) (Some 3) = Some Undefined
   \<and> loaded_SafeSet_value grid_ring [5 / 2 + 3 * 1] = None"
  by (simp add: grid_ring_def grid_defs upt_rec)

lemma option_sum_foldl:
  fixes f :: "nat \<Rightarrow> real"
  shows "foldl (\<lambda>value corner. case value of None \<Rightarrow> None
                 | Some v \<Rightarrow> (case Some (f corner) of None \<Rightarrow> None | Some t \<Rightarrow> Some (v + t)))
           (Some s) cs
         = Some (s + sum_list (map f cs))"
  by (induction cs arbitrary: s) (simp_all add: add.assoc)

lemma indicator_product_foldl:
  fixes a :: real
  shows "foldl (\<lambda>volume xDim. volume * (if P xDim then 1 else 0)) a xs
         = (if \<forall>x\<in>set xs. P x then a else 0)"
proof (induction xs arbitrary: a)
  case Nil
  show ?case by simp
next
  case (Cons x xs)
  show ?case
    by (simp add: Cons.IH)
qed

lemma all_bits_set_iff:
  fixes c :: nat
  assumes "c < 2 ^ D"
  shows "(\<forall>x<D. odd (c div 2 ^ x)) \<longleftrightarrow> c = 2 ^ D - 1"
proof -
  have tk: "take_bit D c = c"
    using assms by (simp add: take_bit_nat_eq_self)
  have bits: "bit c n \<longleftrightarrow> n < D \<and> bit c n" for n
    using tk by (metis bit_take_bit_iff)
  have "c = mask D \<longleftrightarrow> (\<forall>n. bit c n = bit (mask D :: nat) n)"
    by (simp add: bit_eq_iff)
  also have "\<dots> \<longleftrightarrow> (\<forall>n<D. bit c n)"
    using bits by (auto simp: bit_mask_iff)
  finally show ?thesis
    by (simp add: bit_iff_odd mask_eq_exp_minus_1)
qed

lemma top_corner_sum:
  fixes v :: real
  assumes "D \<le> 32"
  shows "sum_list (map (\<lambda>corner. (if \<forall>x\<in>set [0..<D]. cornerBit corner x then 1 else 0) * v) [0..<2 ^ D]) = v"
proof -
  have eq: "(if \<forall>x\<in>set [0..<D]. cornerBit corner x then 1 else 0) * v
            = (if corner = 2 ^ D - 1 then v else 0)" if "corner \<in> set [0..<2 ^ D]" for corner
  proof -
    have c: "corner < 2 ^ D" using that by simp
    have "(\<forall>x\<in>set [0..<D]. cornerBit corner x) \<longleftrightarrow> (\<forall>x<D. odd (corner div 2 ^ x))"
      using assms by (auto simp: cornerBit_def)
    then show ?thesis
      using all_bits_set_iff[OF c] by simp
  qed
  have "sum_list (map (\<lambda>corner. (if \<forall>x\<in>set [0..<D]. cornerBit corner x then 1 else 0) * v) [0..<2 ^ D])
        = sum_list (map (\<lambda>corner. if corner = 2 ^ D - 1 then v else 0) [0..<2 ^ D])"
    using eq by (intro arg_cong[where f = sum_list] map_cong) simp_all
  also have "\<dots> = (\<Sum>corner = 0..<(2::nat) ^ D. if corner = 2 ^ D - 1 then v else 0)"
    by (simp add: interv_sum_list_conv_sum_set_nat)
  also have "\<dots> = v"
    by (simp add: sum.delta)
  finally show ?thesis .
qed


lemma cornerTerm_at_grid_point:
  assumes len: "length ks = D"
    and stored: "griddedValue g ks = Some (Num v)"
  shows "cornerTerm g (map (\<lambda>xDim. 1) [0..<D]) (map (\<lambda>xDim. 0) [0..<D])
           (map Some ks) (map Some ks) D corner
         = Some ((if \<forall>x\<in>set [0..<D]. cornerBit corner x then 1 else 0) * v)"
proof -
  have vol: "foldl (\<lambda>volume xDim. volume * (if cornerBit corner xDim then map (\<lambda>xDim. 1) [0..<D] ! xDim
                                                 else map (\<lambda>xDim. 0) [0..<D] ! xDim)) (1::real) [0..<D]
             = foldl (\<lambda>volume xDim. volume * (if cornerBit corner xDim then 1 else 0)) 1 [0..<D]"
    by (rule foldl_cong) simp_all
  have idx: "map (\<lambda>xDim. if cornerBit corner xDim then map Some ks ! xDim else map Some ks ! xDim) [0..<D]
             = map Some ks"
    using len by (auto intro: nth_equalityI)
  have pl: "peel (Arr (data g)) (map Some ks) = Some (Num v)"
    using stored by (simp add: griddedValue_def)
  show ?thesis
    unfolding cornerTerm_def Let_def vol idx pl indicator_product_foldl
    by simp
qed

text \<open>
  Claim C1, as the code has it. On a grid of at most 32 axes, at a state that lies on
  the grid point of an in-range index vector \<open>ks\<close> (on every axis the coordinate is
  \<open>gmin + k * gdx\<close> with \<open>0 \<le> k < gN\<close>) where the number \<open>v\<close> is stored,
  \<^verbatim>\<open>loaded_SafeSet.value\<close> returns \<open>v\<close> divided by the product of the spacings of all
  axes: the stored datum itself only when that product is 1.
\<close>

theorem loaded_SafeSet_value_at_grid_point:
  assumes cov: "gridCovers g sts"
    and D: "length sts \<le> 32"
    and len: "length ks = length sts"
    and on: "\<forall>x<length sts. sts ! x = gmin g ! x + of_int (ks ! x) * gdx g ! x"
    and rng: "\<forall>x<length sts. \<exists>n. gN_at g x = Some n \<and> 0 \<le> ks ! x \<and> ks ! x < n"
    and stored: "griddedValue g ks = Some (Num v)"
  shows "loaded_SafeSet_value g sts =
           Some (v / foldl (\<lambda>total_volume xDim. total_volume * gdx g ! xDim) 1 [0..<length sts])"
proof -
  have q: "gridQuotient g sts x = of_int (ks ! x)" if "x < length sts" for x
    using gridCovers_axis[OF cov that] on that by (simp add: gridQuotient_def)
  have fx: "fixIndex g x (ks ! x) = Some (ks ! x)" if "x < length sts" for x
    using rng that by (auto simp: fixIndex_def wrapIndex_def clampIndex_def Let_def)
  have dl: "map (\<lambda>xDim.
             if \<lfloor>gridQuotient g sts xDim\<rfloor> = \<lceil>gridQuotient g sts xDim\<rceil> then 1
             else sts ! xDim - (of_int \<lfloor>gridQuotient g sts xDim\<rfloor> * gdx g ! xDim + gmin g ! xDim))
         [0..<length sts] = map (\<lambda>xDim. 1) [0..<length sts]"
    by (rule map_cong) (simp_all add: q)
  have dh: "map (\<lambda>xDim.
             if \<lfloor>gridQuotient g sts xDim\<rfloor> = \<lceil>gridQuotient g sts xDim\<rceil> then 0
             else (of_int \<lceil>gridQuotient g sts xDim\<rceil> * gdx g ! xDim + gmin g ! xDim) - sts ! xDim)
         [0..<length sts] = map (\<lambda>xDim. 0) [0..<length sts]"
    by (rule map_cong) (simp_all add: q)
  have li: "map (\<lambda>xDim. fixIndex g xDim \<lfloor>gridQuotient g sts xDim\<rfloor>) [0..<length sts] = map Some ks"
    using len by (auto intro: nth_equalityI simp: q fx)
  have hi: "map (\<lambda>xDim. fixIndex g xDim \<lceil>gridQuotient g sts xDim\<rceil>) [0..<length sts] = map Some ks"
    using len by (auto intro: nth_equalityI simp: q fx)
  have "loaded_SafeSet_value g sts =
          interpolate g (length sts) (map (\<lambda>xDim. 1) [0..<length sts]) (map (\<lambda>xDim. 0) [0..<length sts])
            (map Some ks) (map Some ks)"
    by (simp only: loaded_SafeSet_value_unfold[OF cov] dl dh li hi)
  also have "\<dots> = Some (v / foldl (\<lambda>total_volume xDim. total_volume * gdx g ! xDim) 1 [0..<length sts])"
    unfolding interpolate_def Let_def cornerTerm_at_grid_point[OF len stored] option_sum_foldl
      top_corner_sum[OF D]
    by simp
  finally show ?thesis .
qed

text \<open>
  Claim C1 at a failing input: a one-axis grid with minimum 0, spacing 1/2 and the data
  1, 2, 3. The state 1/2 is the grid point of index 1, where the datum 2 is stored;
  \<^verbatim>\<open>loaded_SafeSet.value\<close> returns 4, the datum divided by the spacing.
\<close>

theorem loaded_SafeSet_value_grid_point_scaled:
  "gmin grid_half ! 0 + of_int 1 * gdx grid_half ! 0 = 1 / 2
   \<and> gN_at grid_half 0 = Some 3
   \<and> griddedValue grid_half [1] = Some (Num 2)
   \<and> loaded_SafeSet_value grid_half [1 / 2] = Some 4"
proof -
  have cov: "gridCovers grid_half [1 / 2]"
    by (simp add: grid_half_def gridCovers_def)
  have D: "length [1 / 2 :: real] \<le> 32"
    by simp
  have len: "length [1 :: int] = length [1 / 2 :: real]"
    by simp
  have on: "\<forall>x<length [1 / 2 :: real].
              [1 / 2] ! x = gmin grid_half ! x + of_int ([1 :: int] ! x) * gdx grid_half ! x"
    by (simp add: grid_half_def)
  have rng: "\<forall>x<length [1 / 2 :: real].
               \<exists>n. gN_at grid_half x = Some n \<and> 0 \<le> [1 :: int] ! x \<and> [1 :: int] ! x < n"
    by (simp add: grid_half_def gN_at_def)
  have stored: "griddedValue grid_half [1] = Some (Num 2)"
    by (simp add: grid_half_def griddedValue_def)
  have "loaded_SafeSet_value grid_half [1 / 2] =
          Some (2 / foldl (\<lambda>total_volume xDim. total_volume * gdx grid_half ! xDim) 1
                      [0..<length [1 / 2 :: real]])"
    by (rule loaded_SafeSet_value_at_grid_point[OF cov D len on rng stored])
  then have v: "loaded_SafeSet_value grid_half [1 / 2] = Some 4"
    by (simp add: grid_half_def)
  show ?thesis
    using v stored by (simp add: grid_half_def gN_at_def)
qed

text \<open>
  The scenario of the specification, where every spacing is 1: the values at two grid
  points and at the centre of a cell.
\<close>

lemma loaded_SafeSet_value_scenario:
  "loaded_SafeSet_value grid_scenario [0, 0] = Some 0
   \<and> loaded_SafeSet_value grid_scenario [- 1, - 1] = Some 1
   \<and> loaded_SafeSet_value grid_scenario [- 1 / 2, - 1 / 2] = Some (3 / 4)"
  by (simp add: grid_scenario_def grid_defs upt_rec)

end
